theory Spec2Isabelle
  imports Main
begin

section \<open>Museum Explorer: the API access layer of script.js\<close>

text \<open>
  The development embeds the API access layer of \<^verbatim>\<open>src/script.js\<close>:
  \<^verbatim>\<open>makeApiCall\<close> (lines 57-137), \<^verbatim>\<open>loadRandomArtworks\<close> (140-168),
  \<^verbatim>\<open>searchArtworks\<close> (170-200), \<^verbatim>\<open>loadArtworkDetails\<close> (202-244) and
  \<^verbatim>\<open>loadCuratedArtworks\<close> (247-274).

  Conventions of the embedding.
  \<^item> JavaScript numbers are integers, or \<open>NaN\<close> where \<^verbatim>\<open>parseInt\<close> finds no digit
    (exact below \<open>2^53\<close>, which covers every millisecond count the code computes).
  \<^item> The clock is a field of the state. \<^verbatim>\<open>setTimeout(resolve, d)\<close> followed by
    \<^verbatim>\<open>await\<close> advances it by exactly \<open>d\<close> when \<open>d\<close> is positive and not at all when
    \<open>d\<close> is negative, zero or \<open>NaN\<close> (an ideal timer, as under a mocked clock); a
    fetch advances it by the latency the network reports.
  \<^item> The network is a function: \<open>net u k\<close> is what happens to the attempt with retry
    count \<open>k\<close> of a logical request for \<open>u\<close>. Every fetch settles.
  \<^item> Exceptions are values of type \<open>js_error\<close> (the \<^verbatim>\<open>name\<close> and \<^verbatim>\<open>message\<close> of the
    thrown object), returned on the left of a sum.
  \<^item> The DOM functions (\<^verbatim>\<open>showApiWarning\<close>, \<^verbatim>\<open>displayArtworks\<close>, ...) do not
    throw: the page has the elements they look up. Their calls are recorded as events
    or as the resulting view.
\<close>

subsection \<open>JavaScript values\<close>

datatype jsnum = NaN | Num int

fun jsadd :: "jsnum \<Rightarrow> jsnum \<Rightarrow> jsnum" where
  "jsadd (Num a) (Num b) = Num (a + b)"
| "jsadd _ _ = NaN"

fun jssub :: "jsnum \<Rightarrow> jsnum \<Rightarrow> jsnum" where
  "jssub (Num a) (Num b) = Num (a - b)"
| "jssub _ _ = NaN"

fun jsmul :: "jsnum \<Rightarrow> jsnum \<Rightarrow> jsnum" where
  "jsmul (Num a) (Num b) = Num (a * b)"
| "jsmul _ _ = NaN"

text \<open>\<^verbatim>\<open>a < b\<close> on numbers: false as soon as one side is \<open>NaN\<close>.\<close>

fun jsless :: "jsnum \<Rightarrow> jsnum \<Rightarrow> bool" where
  "jsless (Num a) (Num b) = (a < b)"
| "jsless _ _ = False"

text \<open>Truthiness of a number that may be \<^verbatim>\<open>null\<close>, and of a string that may be
  \<^verbatim>\<open>null\<close> or \<^verbatim>\<open>undefined\<close>.\<close>

fun truthyNum :: "jsnum option \<Rightarrow> bool" where
  "truthyNum None = False"
| "truthyNum (Some NaN) = False"
| "truthyNum (Some (Num n)) = (n \<noteq> 0)"

fun truthy :: "string option \<Rightarrow> bool" where
  "truthy None = False"
| "truthy (Some s) = (s \<noteq> [])"

text \<open>\<^verbatim>\<open>hay.includes(needle)\<close>.\<close>

fun strIncludes :: "string \<Rightarrow> string \<Rightarrow> bool" where
  "strIncludes [] needle = (needle = [])"
| "strIncludes (c # cs) needle = (take (length needle) (c # cs) = needle \<or> strIncludes cs needle)"

text \<open>The decimal rendering of a natural number in a template literal.\<close>

fun digitChar :: "nat \<Rightarrow> char" where
  "digitChar d = char_of (48 + d)"

function stringOfNat :: "nat \<Rightarrow> string" where
  "stringOfNat n = (if n < 10 then [digitChar n] else stringOfNat (n div 10) @ [digitChar (n mod 10)])"
  by pat_completeness auto
termination
  by (relation "measure (\<lambda>n. n)") auto

declare stringOfNat.simps [simp del]

text \<open>
  \<^verbatim>\<open>parseInt(str)\<close> with no radix: leading white space is skipped, one sign is read,
  a \<^verbatim>\<open>0x\<close> prefix selects base 16, and the longest run of digits is the value; no digit
  at all gives \<open>NaN\<close>.
\<close>

definition isWhiteSpace :: "char \<Rightarrow> bool" where
  "isWhiteSpace c = ((of_char c :: nat) \<in> set [9, 10, 11, 12, 13, 32, 160])"

definition digitOf :: "char \<Rightarrow> nat" where
  "digitOf c =
     (let n = (of_char c :: nat) in
      if 48 \<le> n \<and> n \<le> 57 then n - 48
      else if 97 \<le> n \<and> n \<le> 122 then n - 87
      else if 65 \<le> n \<and> n \<le> 90 then n - 55
      else 36)"

definition stripSign :: "string \<Rightarrow> int \<times> string" where
  "stripSign S =
     (case S of
        [] \<Rightarrow> (1, [])
      | c # r \<Rightarrow> if c = CHR ''-'' then (- 1, r) else if c = CHR ''+'' then (1, r) else (1, S))"

definition stripPrefix :: "string \<Rightarrow> nat \<times> string" where
  "stripPrefix S =
     (if take 2 S = ''0x'' \<or> take 2 S = ''0X'' then (16, drop 2 S) else (10, S))"

definition parseInt :: "string \<Rightarrow> jsnum" where
  "parseInt str =
     (let (sign, S1) = stripSign (dropWhile isWhiteSpace str);
          (radix, S2) = stripPrefix S1;
          ds = takeWhile (\<lambda>c. digitOf c < radix) S2
      in if ds = [] then NaN
         else Num (sign * int (foldl (\<lambda>a c. a * radix + digitOf c) 0 ds)))"

subsection \<open>Requests, responses and the network\<close>

text \<open>
  The URL a request is made for. The three forms are the three template literals of
  the source: \<^verbatim>\<open>${MET_API_BASE}/objects\<close>,
  \<^verbatim>\<open>${MET_API_BASE}/search?hasImages=true&q=${encodeURIComponent(query)}\<close> and
  \<^verbatim>\<open>${MET_API_BASE}/objects/${id}\<close>.
\<close>

datatype url = ListObjects | Search string | ObjectById int

record js_error =
  errName :: string
  errMessage :: string

text \<open>
  The detail object of the Met API. Its fields are strings, \<open>None\<close> where the property
  is absent or \<^verbatim>\<open>null\<close>; \<open>objectID\<close> is an integer.
\<close>

record raw_artwork =
  objectID :: "int option"
  primaryImage :: "string option"
  primaryImageSmall :: "string option"
  title :: "string option"
  artistDisplayName :: "string option"
  department :: "string option"
  culture :: "string option"
  objectDate :: "string option"
  medium :: "string option"

text \<open>
  What \<^verbatim>\<open>await response.json()\<close> and the first property read give. \<open>Unreadable e\<close>: the
  body is not JSON (\<^verbatim>\<open>response.json()\<close> rejects with the SyntaxError \<open>e\<close>) or is the
  JSON \<^verbatim>\<open>null\<close> (the property read throws the TypeError \<open>e\<close>); both are thrown inside
  the same \<^verbatim>\<open>try\<close>. \<open>Listing ids\<close>: an object with \<^verbatim>\<open>objectIDs\<close>, \<open>None\<close> where that
  property is absent or \<^verbatim>\<open>null\<close>. \<open>Object raw\<close>: a detail object.
\<close>

datatype body = Unreadable js_error | Listing "int list option" | Object raw_artwork

record response =
  status :: nat
  statusText :: string
  retryAfterHeader :: "string option"
  remainingHeader :: "string option"
  body :: body

text \<open>\<^verbatim>\<open>response.ok\<close>.\<close>

definition ok :: "response \<Rightarrow> bool" where
  "ok r = (200 \<le> status r \<and> status r \<le> 299)"

text \<open>A fetch settles after some milliseconds, with a response or with a thrown error.\<close>

datatype fetch_outcome = Resolves nat response | Rejects nat js_error

type_synonym network = "url \<Rightarrow> nat \<Rightarrow> fetch_outcome"

subsection \<open>The rate-limit state and the clock\<close>

text \<open>The module-level variables of lines 16-18, and \<^verbatim>\<open>Date.now()\<close>.\<close>

record world =
  apiCallCount :: nat
  rateLimitResetTime :: "jsnum option"
  isRateLimited :: bool
  now :: int

datatype event = Fetch url | Sleep int | ApiWarning string

text \<open>\<^verbatim>\<open>await new Promise(resolve => setTimeout(resolve, d))\<close>.\<close>

fun delayOf :: "jsnum \<Rightarrow> int" where
  "delayOf NaN = 0"
| "delayOf (Num d) = max 0 d"

definition sleep :: "jsnum \<Rightarrow> world \<Rightarrow> world" where
  "sleep d s = s\<lparr>now := now s + delayOf d\<rparr>"

definition maxRetries :: nat where
  "maxRetries = 3"

definition baseDelay :: int where
  "baseDelay = 1000"

text \<open>
  \<^verbatim>\<open>rateLimitResetTime\<close> in arithmetic and comparison: \<^verbatim>\<open>null\<close> converts to 0.
\<close>

fun toNumber :: "jsnum option \<Rightarrow> jsnum" where
  "toNumber None = Num 0"
| "toNumber (Some t) = t"

text \<open>Lines 63-68: wait out a known rate limit, then clear the flag.\<close>

definition currentlyLimited :: "world \<Rightarrow> bool" where
  "currentlyLimited s =
     (isRateLimited s \<and> truthyNum (rateLimitResetTime s) \<and>
      jsless (Num (now s)) (toNumber (rateLimitResetTime s)))"

definition waitIfLimited :: "world \<Rightarrow> world \<times> event list" where
  "waitIfLimited s =
     (if currentlyLimited s
      then (let waitTime = jssub (toNumber (rateLimitResetTime s)) (Num (now s))
            in ((sleep waitTime s)\<lparr>isRateLimited := False\<rparr>, [Sleep (delayOf waitTime)]))
      else (s, []))"

text \<open>
  Lines 78-91: a 429 was received at retry count \<open>retryCount\<close>. \<^verbatim>\<open>if (retryAfter)\<close>
  takes the header when it is present and not the empty string.
\<close>

definition backoff :: "nat \<Rightarrow> jsnum" where
  "backoff retryCount = Num (baseDelay * 2 ^ retryCount)"

definition retryWait :: "response \<Rightarrow> nat \<Rightarrow> jsnum" where
  "retryWait r retryCount =
     (case retryAfterHeader r of
        None \<Rightarrow> backoff retryCount
      | Some retryAfter \<Rightarrow>
          if retryAfter \<noteq> [] then jsmul (parseInt retryAfter) (Num 1000)
          else backoff retryCount)"

definition observe429 :: "world \<Rightarrow> response \<Rightarrow> nat \<Rightarrow> world" where
  "observe429 s r retryCount =
     (let s1 = s\<lparr>isRateLimited := True\<rparr>;
          waitTime = retryWait r retryCount
      in s1\<lparr>rateLimitResetTime := Some (jsadd (Num (now s1)) waitTime)\<rparr>)"

text \<open>Lines 111-123: the advisory on a successful response.\<close>

definition advisory :: "response \<Rightarrow> event list" where
  "advisory r =
     (case remainingHeader r of
        None \<Rightarrow> []
      | Some remaining \<Rightarrow>
          if jsless (parseInt remaining) (Num 10) then [ApiWarning remaining] else [])"

text \<open>The errors the function constructs itself (lines 98 and 104).\<close>

definition rateLimitError :: js_error where
  "rateLimitError = \<lparr>errName = ''Error'', errMessage = ''Rate limited: Maximum retries exceeded''\<rparr>"

definition httpError :: "response \<Rightarrow> js_error" where
  "httpError r =
     \<lparr>errName = ''Error'',
      errMessage = ''HTTP '' @ stringOfNat (status r) @ '': '' @ statusText r\<rparr>"

text \<open>The test of the \<^verbatim>\<open>catch\<close> block (line 128), without the budget.\<close>

definition looksLikeNetworkError :: "js_error \<Rightarrow> bool" where
  "looksLikeNetworkError e = (errName e = ''TypeError'' \<or> strIncludes (errMessage e) ''fetch'')"

subsection \<open>makeApiCall\<close>

text \<open>
  What the \<^verbatim>\<open>try\<close> block of one invocation does, up to the point where it returns a
  response, throws, or reaches \<^verbatim>\<open>return makeApiCall(url, retryCount + 1)\<close> on line 96.
  That \<^verbatim>\<open>return\<close> is not awaited, so a rejection of the inner call is not caught by
  this invocation's \<^verbatim>\<open>catch\<close>.
\<close>

datatype try_result = Returned response | Thrown js_error | RetryAfter429

definition tryBlock :: "world \<Rightarrow> fetch_outcome \<Rightarrow> url \<Rightarrow> nat \<Rightarrow> try_result \<times> world \<times> event list" where
  "tryBlock s outcome u retryCount =
     (let (s1, ev1) = waitIfLimited s;
          s2 = s1\<lparr>apiCallCount := apiCallCount s1 + 1\<rparr>;
          ev2 = ev1 @ [Fetch u]
      in case outcome of
           Rejects dt e \<Rightarrow> (Thrown e, s2\<lparr>now := now s2 + int dt\<rparr>, ev2)
         | Resolves dt r \<Rightarrow>
             (let s3 = s2\<lparr>now := now s2 + int dt\<rparr>
              in if status r = 429
                 then (let s4 = observe429 s3 r retryCount
                       in if retryCount < maxRetries
                          then (let d = jssub (toNumber (rateLimitResetTime s4)) (Num (now s4))
                                in (RetryAfter429, sleep d s4, ev2 @ [Sleep (delayOf d)]))
                          else (Thrown rateLimitError, s4, ev2))
                 else if ok r then (Returned r, s3, ev2 @ advisory r)
                 else (Thrown (httpError r), s3, ev2)))"

text \<open>
  One invocation, and the invocations it returns. The \<^verbatim>\<open>try\<close> block reaches line 96 only
  under \<open>retryCount < maxRetries\<close> (lemma \<open>tryBlock_Retry_lt\<close> below); the test is
  repeated here, where the recursion is, and its other branch is never taken.
\<close>

type_synonym api_result = "(js_error + response) \<times> world \<times> event list"

definition after :: "event list \<Rightarrow> api_result \<Rightarrow> api_result" where
  "after ev res = (case res of (r, s, ev') \<Rightarrow> (r, s, ev @ ev'))"

function makeApiCall :: "world \<Rightarrow> network \<Rightarrow> url \<Rightarrow> nat \<Rightarrow> api_result" where
  "makeApiCall s net u retryCount =
     (case tryBlock s (net u retryCount) u retryCount of
        (Returned r, s1, ev) \<Rightarrow> (Inr r, s1, ev)
      | (RetryAfter429, s1, ev) \<Rightarrow>
          (if retryCount < maxRetries
           then after ev (makeApiCall s1 net u (retryCount + 1))
           else (Inl rateLimitError, s1, ev))
      | (Thrown e, s1, ev) \<Rightarrow>
          (if retryCount < maxRetries \<and> looksLikeNetworkError e
           then (let waitTime = backoff retryCount
                 in after (ev @ [Sleep (delayOf waitTime)])
                      (makeApiCall (sleep waitTime s1) net u (retryCount + 1)))
           else (Inl e, s1, ev)))"
  by pat_completeness auto
termination
  by (relation "measure (\<lambda>(s, net, u, retryCount). maxRetries - retryCount)") auto

declare makeApiCall.simps [simp del]

subsection \<open>loadArtworkDetails\<close>

text \<open>The object literal of lines 216-225.\<close>

record artwork =
  recId :: "int option"
  recTitle :: string
  recArtist :: string
  recLocation :: string
  recImage :: string
  recCulture :: "string option"
  recDate :: "string option"
  recMedium :: "string option"

text \<open>\<^verbatim>\<open>a || b\<close> where \<open>b\<close> is a string.\<close>

fun orElse :: "string option \<Rightarrow> string \<Rightarrow> string" where
  "orElse None d = d"
| "orElse (Some s) d = (if s \<noteq> [] then s else d)"

text \<open>Lines 215-227: the record made of a detail object, or \<^verbatim>\<open>null\<close>.\<close>

definition normalize :: "raw_artwork \<Rightarrow> artwork option" where
  "normalize raw =
     (if truthy (primaryImage raw) \<and> truthy (title raw)
      then (case (primaryImage raw, title raw) of
              (Some img, Some t) \<Rightarrow>
                Some \<lparr>recId = objectID raw,
                      recTitle = t,
                      recArtist = orElse (artistDisplayName raw) ''Unknown Artist'',
                      recLocation = orElse (department raw) ''Metropolitan Museum'',
                      recImage = orElse (primaryImageSmall raw) img,
                      recCulture = culture raw,
                      recDate = objectDate raw,
                      recMedium = medium raw\<rparr>
            | _ \<Rightarrow> None)
      else None)"

text \<open>
  Lines 209-232: the callback of \<^verbatim>\<open>batch.map\<close>. Whatever is thrown inside is caught
  and gives \<^verbatim>\<open>null\<close>. A body without \<^verbatim>\<open>primaryImage\<close> (a listing) gives \<^verbatim>\<open>null\<close> too.

  The callbacks of one batch run interleaved and share the rate-limit variables, so
  the waits of one depend on the others. The value a callback returns does not: it is
  determined by the outcomes of its own fetches: what one attempt does next depends on
  the outcome and the retry count only, whatever the variables hold at that moment
  (lemmas \<open>tryBlock_result_indep\<close> and \<open>makeApiCall_result_indep\<close> below). The loader is therefore modelled on these values, with \<open>s\<close> the state at
  its entry, and \<open>nets p\<close> the network as the callback for position \<open>p\<close> of the input
  sees it.
\<close>

definition fetchArtwork :: "world \<Rightarrow> network \<Rightarrow> int \<Rightarrow> artwork option" where
  "fetchArtwork s net i =
     (case fst (makeApiCall s net (ObjectById i) 0) of
        Inl error \<Rightarrow> None
      | Inr response \<Rightarrow>
          (case body response of
             Unreadable error \<Rightarrow> None
           | Listing ids \<Rightarrow> None
           | Object raw \<Rightarrow> normalize raw))"

definition batchSize :: nat where
  "batchSize = 3"

text \<open>
  \<open>Batch us\<close>: lines 208-234, the requests \<open>us\<close> of one batch are started by
  \<^verbatim>\<open>batch.map\<close> and \<^verbatim>\<open>await Promise.all\<close> has returned, that is, every one of them has
  settled. \<open>Pause d\<close>: the \<^verbatim>\<open>setTimeout\<close> of line 239 has been awaited.
\<close>

datatype loader_event = Batch "url list" | Pause nat

function loadLoop ::
  "world \<Rightarrow> (nat \<Rightarrow> network) \<Rightarrow> int list \<Rightarrow> nat \<Rightarrow> artwork list \<Rightarrow> loader_event list
     \<Rightarrow> artwork list \<times> loader_event list" where
  "loadLoop s nets objectIds i artworks log =
     (if i < length objectIds
      then (let batch = take batchSize (drop i objectIds);
                batchResults =
                  map (\<lambda>(p, x). fetchArtwork s (nets p) x) (zip [i ..< i + length batch] batch);
                artworks1 = artworks @ List.map_filter (\<lambda>a. a) batchResults;
                log1 = log @ [Batch (map ObjectById batch)];
                log2 = (if i + batchSize < length objectIds then log1 @ [Pause 500] else log1)
            in loadLoop s nets objectIds (i + batchSize) artworks1 log2)
      else (artworks, log))"
  by pat_completeness auto
termination
  by (relation "measure (\<lambda>(s, nets, objectIds, i, artworks, log). length objectIds - i)")
     (auto simp: batchSize_def)

declare loadLoop.simps [simp del]

definition loadArtworkDetails ::
  "world \<Rightarrow> (nat \<Rightarrow> network) \<Rightarrow> int list \<Rightarrow> artwork list \<times> loader_event list" where
  "loadArtworkDetails s nets objectIds = loadLoop s nets objectIds 0 [] []"

subsection \<open>The two pages: random browse and search\<close>

text \<open>
  What the page ends up showing: \<^verbatim>\<open>displayArtworks\<close>, \<^verbatim>\<open>showNoResults\<close> or
  \<^verbatim>\<open>showErrorMessage\<close>. The log records the calls made on the way. In the two page
  functions \<open>net\<close> answers the listing call and \<open>nets p\<close> answers the callback for
  position \<open>p\<close> of the list that is loaded (at most one list is loaded per call).
\<close>

datatype view = Displayed "artwork list" | NoResults string | ErrorMessage string

datatype app_event = Api "event list" | Details "loader_event list" | CuratedFallback

type_synonym page = "view \<times> app_event list"

definition logged :: "app_event list \<Rightarrow> page \<Rightarrow> page" where
  "logged evs pg = (case pg of (v, evs') \<Rightarrow> (v, evs @ evs'))"

definition curatedIds :: "int list" where
  "curatedIds =
     [436532, 459123, 437853, 438817, 436105, 437984,
      438821, 436947, 459080, 437329, 438013, 436535]"

definition loadCuratedArtworks :: "world \<Rightarrow> (nat \<Rightarrow> network) \<Rightarrow> page" where
  "loadCuratedArtworks s nets =
     (case loadArtworkDetails s nets curatedIds of
        (artworks, lev) \<Rightarrow> (Displayed artworks, [CuratedFallback, Details lev]))"

text \<open>
  \<^verbatim>\<open>getRandomSample(array, size)\<close>: \<open>shuffle\<close> is the order in which the sort with the
  random comparator leaves the copy.
\<close>

definition getRandomSample :: "(int list \<Rightarrow> int list) \<Rightarrow> int list \<Rightarrow> nat \<Rightarrow> int list" where
  "getRandomSample shuffle array sz = take sz (shuffle array)"

definition noArtworksError :: js_error where
  "noArtworksError = \<lparr>errName = ''Error'', errMessage = ''No artworks found''\<rparr>"

text \<open>The \<^verbatim>\<open>catch\<close> block of \<^verbatim>\<open>loadRandomArtworks\<close> (lines 158-167).\<close>

definition browseCatch :: "js_error \<Rightarrow> world \<Rightarrow> (nat \<Rightarrow> network) \<Rightarrow> page" where
  "browseCatch error s nets =
     (if strIncludes (errMessage error) ''Rate limited''
      then (ErrorMessage ''API rate limit exceeded. Please wait a moment and try again.'', [])
      else loadCuratedArtworks s nets)"

text \<open>\<^verbatim>\<open>data.objectIDs\<close> of a body that could be read.\<close>

fun objectIDsOf :: "body \<Rightarrow> int list option" where
  "objectIDsOf (Listing ids) = ids"
| "objectIDsOf _ = None"

definition loadRandomArtworks ::
  "world \<Rightarrow> network \<Rightarrow> (nat \<Rightarrow> network) \<Rightarrow> (int list \<Rightarrow> int list) \<Rightarrow> page" where
  "loadRandomArtworks s net nets shuffle =
     (case makeApiCall s net ListObjects 0 of
        (Inl error, s1, ev) \<Rightarrow> logged [Api ev] (browseCatch error s1 nets)
      | (Inr response, s1, ev) \<Rightarrow>
          (case body response of
             Unreadable error \<Rightarrow> logged [Api ev] (browseCatch error s1 nets)
           | data \<Rightarrow>
               (case objectIDsOf data of
                  None \<Rightarrow> logged [Api ev] (browseCatch noArtworksError s1 nets)
                | Some objectIDs \<Rightarrow>
                    if length objectIDs > 0
                    then (let randomIds = getRandomSample shuffle objectIDs 12
                          in case loadArtworkDetails s1 nets randomIds of
                               (artworks, lev) \<Rightarrow> (Displayed artworks, [Api ev, Details lev]))
                    else logged [Api ev] (browseCatch noArtworksError s1 nets))))"

text \<open>The \<^verbatim>\<open>catch\<close> block of \<^verbatim>\<open>searchArtworks\<close> (lines 191-199).\<close>

definition searchCatch :: "js_error \<Rightarrow> page" where
  "searchCatch error =
     (if strIncludes (errMessage error) ''Rate limited''
      then (ErrorMessage ''Search rate limit exceeded. Please wait a moment and try again.'', [])
      else (ErrorMessage ''Search failed. Please try again.'', []))"

definition searchArtworks :: "world \<Rightarrow> network \<Rightarrow> (nat \<Rightarrow> network) \<Rightarrow> string \<Rightarrow> page" where
  "searchArtworks s net nets query =
     (case makeApiCall s net (Search query) 0 of
        (Inl error, s1, ev) \<Rightarrow> logged [Api ev] (searchCatch error)
      | (Inr response, s1, ev) \<Rightarrow>
          (case body response of
             Unreadable error \<Rightarrow> logged [Api ev] (searchCatch error)
           | data \<Rightarrow>
               (case objectIDsOf data of
                  None \<Rightarrow> (NoResults query, [Api ev])
                | Some objectIDs \<Rightarrow>
                    if length objectIDs > 0
                    then (let searchIds = take 12 objectIDs
                          in case loadArtworkDetails s1 nets searchIds of
                               (artworks, lev) \<Rightarrow> (Displayed artworks, [Api ev, Details lev]))
                    else (NoResults query, [Api ev]))))"

subsection \<open>Observations on traces and results\<close>

fun isFetch :: "event \<Rightarrow> bool" where
  "isFetch (Fetch u) = True"
| "isFetch _ = False"

text \<open>The number of times \<^verbatim>\<open>fetch\<close> was called.\<close>

definition fetchCount :: "event list \<Rightarrow> nat" where
  "fetchCount ev = length (filter isFetch ev)"

text \<open>What the callback started for position \<open>p\<close> of \<open>objectIds\<close> returns.\<close>

definition taskAt :: "world \<Rightarrow> (nat \<Rightarrow> network) \<Rightarrow> int list \<Rightarrow> nat \<Rightarrow> artwork option" where
  "taskAt s nets objectIds p = fetchArtwork s (nets p) (objectIds ! p)"


text \<open>
  The flag is set although no wait is due: the reset time is \<^verbatim>\<open>null\<close>, 0 or \<open>NaN\<close>, or
  it is not in the future.
\<close>

definition staleFlag :: "world \<Rightarrow> bool" where
  "staleFlag s = (isRateLimited s \<and> \<not> currentlyLimited s)"


subsection \<open>Concrete inputs\<close>

definition s0 :: world where
  "s0 = \<lparr>apiCallCount = 0, rateLimitResetTime = None, isRateLimited = False, now = 5000\<rparr>"

definition emptyBody :: body where
  "emptyBody = Listing None"

definition respond :: "nat \<Rightarrow> string \<Rightarrow> string option \<Rightarrow> body \<Rightarrow> response" where
  "respond st txt ra b =
     \<lparr>status = st, statusText = txt, retryAfterHeader = ra, remainingHeader = None, body = b\<rparr>"

definition typeError :: js_error where
  "typeError = \<lparr>errName = ''TypeError'', errMessage = ''Failed to fetch''\<rparr>"

text \<open>A 429 without header on the even attempts, a network error on the odd ones.\<close>

definition mixedNet :: network where
  "mixedNet u k = (if even k then Resolves 0 (respond 429 ''Too Many Requests'' None emptyBody)
                   else Rejects 0 typeError)"

text \<open>A 429 with \<^verbatim>\<open>Retry-After: 2\<close>, then a 200.\<close>

definition retryAfter2Net :: network where
  "retryAfter2Net u k =
     (if k = 0 then Resolves 0 (respond 429 ''Too Many Requests'' (Some ''2'') emptyBody)
      else Resolves 0 (respond 200 ''OK'' None emptyBody))"

text \<open>A 500 whose reason phrase contains the word fetch, then a 200.\<close>

definition fetchInStatusTextNet :: network where
  "fetchInStatusTextNet u k =
     (if k = 0 then Resolves 0 (respond 500 ''Prefetch Failed'' None emptyBody)
      else Resolves 0 (respond 200 ''OK'' None emptyBody))"

text \<open>A detail object with every field, and the record made of it.\<close>

definition rawOf :: "int \<Rightarrow> raw_artwork" where
  "rawOf i =
     \<lparr>objectID = Some i, primaryImage = Some ''full.jpg'', primaryImageSmall = Some ''small.jpg'',
      title = Some ''Irises'', artistDisplayName = Some ''Vincent van Gogh'',
      department = Some ''European Paintings'', culture = None, objectDate = Some ''1890'',
      medium = Some ''Oil on canvas''\<rparr>"

definition recordOf :: "int \<Rightarrow> artwork" where
  "recordOf i =
     \<lparr>recId = Some i, recTitle = ''Irises'', recArtist = ''Vincent van Gogh'',
      recLocation = ''European Paintings'', recImage = ''small.jpg'', recCulture = None,
      recDate = Some ''1890'', recMedium = Some ''Oil on canvas''\<rparr>"

text \<open>A detail object with an empty title, and one with an empty artist name.\<close>

definition untitled :: raw_artwork where
  "untitled = (rawOf 7)\<lparr>title := Some [], artistDisplayName := None\<rparr>"

definition anonymous :: raw_artwork where
  "anonymous = (rawOf 8)\<lparr>artistDisplayName := Some []\<rparr>"

text \<open>
  The listing has the IDs 1, 2, 3, every search is empty, the detail request for ID 2
  answers 404 and every other detail request succeeds.
\<close>

definition scenarioNet :: network where
  "scenarioNet u k =
     (case u of
        ListObjects \<Rightarrow> Resolves 0 (respond 200 ''OK'' None (Listing (Some [1, 2, 3])))
      | Search q \<Rightarrow> Resolves 0 (respond 200 ''OK'' None (Listing (Some [])))
      | ObjectById i \<Rightarrow>
          if i = 2 then Resolves 0 (respond 404 ''Not Found'' None emptyBody)
          else Resolves 0 (respond 200 ''OK'' None (Object (rawOf i))))"

text \<open>Every request succeeds with an empty \<^verbatim>\<open>objectIDs\<close> array.\<close>

definition emptyListingNet :: network where
  "emptyListingNet u k = Resolves 0 (respond 200 ''OK'' None (Listing (Some [])))"

text \<open>Every request answers 500; every request answers 429.\<close>

definition serverErrorNet :: network where
  "serverErrorNet u k = Resolves 0 (respond 500 ''Internal Server Error'' None emptyBody)"

definition throttledNet :: network where
  "throttledNet u k = Resolves 0 (respond 429 ''Too Many Requests'' None emptyBody)"

section \<open>Properties of makeApiCall\<close>

lemma fetchCount_append [simp]: "fetchCount (a @ b) = fetchCount a + fetchCount b"
  by (simp add: fetchCount_def)

lemma fetchCount_simps [simp]:
  "fetchCount [] = 0" "fetchCount (Fetch u # ev) = Suc (fetchCount ev)"
  "fetchCount (Sleep d # ev) = fetchCount ev" "fetchCount (ApiWarning w # ev) = fetchCount ev"
  by (simp_all add: fetchCount_def)

lemma fetchCount_waitIfLimited: "fetchCount (snd (waitIfLimited s)) = 0"
  by (simp add: waitIfLimited_def Let_def)

lemma fetchCount_advisory: "fetchCount (advisory r) = 0"
  by (simp add: advisory_def split: option.splits)

lemma tryBlock_fetchCount:
  assumes "tryBlock s oc u k = (tr, s1, ev)"
  shows "fetchCount ev = 1"
  using assms fetchCount_waitIfLimited [of s] fetchCount_advisory
  by (auto simp: tryBlock_def Let_def split: prod.splits fetch_outcome.splits if_splits)

lemma tryBlock_Retry_lt:
  assumes "tryBlock s oc u k = (RetryAfter429, s1, ev)"
  shows "k < maxRetries"
  using assms
  by (auto simp: tryBlock_def Let_def split: prod.splits fetch_outcome.splits if_splits)

lemma events_after: "snd (snd (after ev res)) = ev @ snd (snd res)"
  by (cases res) (simp add: after_def)

lemma fst_after: "fst (after ev res) = fst res"
  by (cases res) (simp add: after_def)

lemma world_after: "fst (snd (after ev res)) = fst (snd res)"
  by (cases res) (simp add: after_def)

lemma makeApiCall_Returned:
  "tryBlock s (net u k) u k = (Returned r, s1, ev) \<Longrightarrow> makeApiCall s net u k = (Inr r, s1, ev)"
  by (subst makeApiCall.simps) simp

lemma makeApiCall_Retry:
  "tryBlock s (net u k) u k = (RetryAfter429, s1, ev) \<Longrightarrow>
   makeApiCall s net u k = after ev (makeApiCall s1 net u (Suc k))"
  by (subst makeApiCall.simps) (simp add: tryBlock_Retry_lt)

lemma makeApiCall_Thrown_retry:
  "tryBlock s (net u k) u k = (Thrown e, s1, ev) \<Longrightarrow> k < maxRetries \<Longrightarrow> looksLikeNetworkError e \<Longrightarrow>
   makeApiCall s net u k =
     after (ev @ [Sleep (delayOf (backoff k))]) (makeApiCall (sleep (backoff k) s1) net u (Suc k))"
  by (subst makeApiCall.simps) (simp add: Let_def)

lemma makeApiCall_Thrown_stop:
  "tryBlock s (net u k) u k = (Thrown e, s1, ev) \<Longrightarrow> \<not> (k < maxRetries \<and> looksLikeNetworkError e) \<Longrightarrow>
   makeApiCall s net u k = (Inl e, s1, ev)"
  by (subst makeApiCall.simps) auto

lemma makeApiCall_cases_induct [case_names attempt]:
  assumes step: "\<And>s net u k.
     (\<And>s1 ev. tryBlock s (net u k) u k = (RetryAfter429, s1, ev) \<Longrightarrow> k < maxRetries \<Longrightarrow>
        P s1 net u (Suc k)) \<Longrightarrow>
     (\<And>e s1 ev. tryBlock s (net u k) u k = (Thrown e, s1, ev) \<Longrightarrow> k < maxRetries \<Longrightarrow>
        looksLikeNetworkError e \<Longrightarrow> P (sleep (backoff k) s1) net u (Suc k)) \<Longrightarrow>
     P s net u k"
  shows "P s net u k"
proof (induction s net u k rule: makeApiCall.induct)
  case (1 s net u k)
  show ?case
  proof (rule step)
    fix s1 ev
    assume tb: "tryBlock s (net u k) u k = (RetryAfter429, s1, ev)" and lt: "k < maxRetries"
    show "P s1 net u (Suc k)"
      using "1.IH"(2) [of RetryAfter429 "(s1, ev)" s1 ev] tb lt by simp
  next
    fix e s1 ev
    assume tb: "tryBlock s (net u k) u k = (Thrown e, s1, ev)" and lt: "k < maxRetries"
      and nw: "looksLikeNetworkError e"
    show "P (sleep (backoff k) s1) net u (Suc k)"
      using "1.IH"(1) [of "Thrown e" "(s1, ev)" e s1 ev "backoff k"] tb lt nw by simp
  qed
qed

lemma makeApiCall_fetchCount_le:
  "fetchCount (snd (snd (makeApiCall s net u k))) \<le> Suc (maxRetries - k)"
proof (induction s net u k rule: makeApiCall_cases_induct)
  case (attempt s net u k)
  obtain tr s1 ev where tb: "tryBlock s (net u k) u k = (tr, s1, ev)"
    by (cases "tryBlock s (net u k) u k") auto
  have one: "fetchCount ev = 1" using tb by (rule tryBlock_fetchCount)
  show ?case
  proof (cases tr)
    case (Returned r)
    then show ?thesis using tb one by (simp add: makeApiCall_Returned)
  next
    case RetryAfter429
    with tb have tb': "tryBlock s (net u k) u k = (RetryAfter429, s1, ev)" by simp
    have lt: "k < maxRetries" using tb' by (rule tryBlock_Retry_lt)
    have "fetchCount (snd (snd (makeApiCall s1 net u (Suc k)))) \<le> Suc (maxRetries - Suc k)"
      using attempt(1) [OF tb' lt] .
    then show ?thesis using one lt by (simp add: makeApiCall_Retry [of s net u k, OF tb'] events_after)
  next
    case (Thrown e)
    with tb have tb': "tryBlock s (net u k) u k = (Thrown e, s1, ev)" by simp
    show ?thesis
    proof (cases "k < maxRetries \<and> looksLikeNetworkError e")
      case True
      then have lt: "k < maxRetries" and nw: "looksLikeNetworkError e" by simp_all
      have "fetchCount (snd (snd (makeApiCall (sleep (backoff k) s1) net u (Suc k)))) \<le> Suc (maxRetries - Suc k)"
        using attempt(2) [OF tb' lt nw] .
      then show ?thesis using one lt
        by (simp add: makeApiCall_Thrown_retry [of s net u k, OF tb' lt nw] events_after)
    next
      case False
      then show ?thesis using one by (simp add: makeApiCall_Thrown_stop [of s net u k, OF tb'])
    qed
  qed
qed

lemma tryBlock_result_indep: "fst (tryBlock s oc u k) = fst (tryBlock s' oc u k)"
  by (auto simp: tryBlock_def Let_def split: prod.splits fetch_outcome.splits)

lemma makeApiCall_result_indep: "fst (makeApiCall s net u k) = fst (makeApiCall s' net u k)"
proof (induction s net u k arbitrary: s' rule: makeApiCall_cases_induct)
  case (attempt s net u k)
  obtain tr s1 ev where tb: "tryBlock s (net u k) u k = (tr, s1, ev)"
    by (cases "tryBlock s (net u k) u k") auto
  obtain tr' s1' ev' where tb': "tryBlock s' (net u k) u k = (tr', s1', ev')"
    by (cases "tryBlock s' (net u k) u k") auto
  have same: "tr' = tr"
    using tryBlock_result_indep [of s "net u k" u k s'] tb tb' by simp
  show ?case
  proof (cases tr)
    case (Returned r)
    then show ?thesis using tb tb' same by (simp add: makeApiCall_Returned)
  next
    case RetryAfter429
    with tb tb' same have a: "tryBlock s (net u k) u k = (RetryAfter429, s1, ev)"
      and b: "tryBlock s' (net u k) u k = (RetryAfter429, s1', ev')" by simp_all
    have lt: "k < maxRetries" using a by (rule tryBlock_Retry_lt)
    show ?thesis
      using attempt(1) [OF a lt, of s1']
      by (simp add: makeApiCall_Retry [of s net u k, OF a] makeApiCall_Retry [of s' net u k, OF b] fst_after)
  next
    case (Thrown e)
    with tb tb' same have a: "tryBlock s (net u k) u k = (Thrown e, s1, ev)"
      and b: "tryBlock s' (net u k) u k = (Thrown e, s1', ev')" by simp_all
    show ?thesis
    proof (cases "k < maxRetries \<and> looksLikeNetworkError e")
      case True
      then have lt: "k < maxRetries" and nw: "looksLikeNetworkError e" by simp_all
      show ?thesis
        using attempt(2) [OF a lt nw, of "sleep (backoff k) s1'"]
        by (simp add: makeApiCall_Thrown_retry [of s net u k, OF a lt nw] makeApiCall_Thrown_retry [of s' net u k, OF b lt nw] fst_after)
    next
      case False
      then show ?thesis
        by (simp add: makeApiCall_Thrown_stop [of s net u k, OF a] makeApiCall_Thrown_stop [of s' net u k, OF b])
    qed
  qed
qed

lemma tryBlock_apiCallCount:
  assumes "tryBlock s oc u k = (tr, s1, ev)"
  shows "apiCallCount s1 = Suc (apiCallCount s)"
  using assms
  by (auto simp: tryBlock_def Let_def waitIfLimited_def sleep_def observe429_def
           split: prod.splits fetch_outcome.splits if_splits)

lemma apiCallCount_sleep [simp]: "apiCallCount (sleep d s) = apiCallCount s"
  by (simp add: sleep_def)

lemma makeApiCall_apiCallCount:
  "apiCallCount (fst (snd (makeApiCall s net u k))) =
     apiCallCount s + fetchCount (snd (snd (makeApiCall s net u k)))"
proof (induction s net u k rule: makeApiCall_cases_induct)
  case (attempt s net u k)
  obtain tr s1 ev where tb: "tryBlock s (net u k) u k = (tr, s1, ev)"
    by (cases "tryBlock s (net u k) u k") auto
  have one: "fetchCount ev = 1" using tb by (rule tryBlock_fetchCount)
  have cnt: "apiCallCount s1 = Suc (apiCallCount s)" using tb by (rule tryBlock_apiCallCount)
  show ?case
  proof (cases tr)
    case (Returned r)
    then show ?thesis using tb one cnt by (simp add: makeApiCall_Returned)
  next
    case RetryAfter429
    with tb have tb': "tryBlock s (net u k) u k = (RetryAfter429, s1, ev)" by simp
    have lt: "k < maxRetries" using tb' by (rule tryBlock_Retry_lt)
    show ?thesis
      using attempt(1) [OF tb' lt] one cnt
      by (simp add: makeApiCall_Retry [of s net u k, OF tb'] events_after world_after)
  next
    case (Thrown e)
    with tb have tb': "tryBlock s (net u k) u k = (Thrown e, s1, ev)" by simp
    show ?thesis
    proof (cases "k < maxRetries \<and> looksLikeNetworkError e")
      case True
      then have lt: "k < maxRetries" and nw: "looksLikeNetworkError e" by simp_all
      show ?thesis
        using attempt(2) [OF tb' lt nw] one cnt
        by (simp add: makeApiCall_Thrown_retry [of s net u k, OF tb' lt nw] events_after world_after)
    next
      case False
      then show ?thesis using one cnt by (simp add: makeApiCall_Thrown_stop [of s net u k, OF tb'])
    qed
  qed
qed

text \<open>
  Claim C1. One logical request, \<^verbatim>\<open>makeApiCall(url)\<close> with the default retry count 0,
  calls \<^verbatim>\<open>fetch\<close> at most \<open>maxRetries + 1 = 4\<close> times, whatever the network answers:
  retries after a 429 and retries after a thrown error increase the same
  \<open>retryCount\<close>. The call counter grows by the same number.
\<close>

theorem makeApiCall_at_most_four_fetches:
  "fetchCount (snd (snd (makeApiCall s net u 0))) \<le> maxRetries + 1 \<and>
   maxRetries + 1 = 4 \<and>
   apiCallCount (fst (snd (makeApiCall s net u 0))) \<le> apiCallCount s + 4"
proof -
  have a: "fetchCount (snd (snd (makeApiCall s net u 0))) \<le> Suc (maxRetries - 0)"
    by (rule makeApiCall_fetchCount_le)
  have b: "maxRetries + 1 = 4" by (simp add: maxRetries_def)
  have c: "apiCallCount (fst (snd (makeApiCall s net u 0))) =
             apiCallCount s + fetchCount (snd (snd (makeApiCall s net u 0)))"
    by (rule makeApiCall_apiCallCount)
  show ?thesis using a b c by simp
qed

text \<open>The bound is reached, by a request whose retries are of both kinds.\<close>

theorem makeApiCall_at_most_four_fetches_witness:
  "snd (snd (makeApiCall s0 mixedNet ListObjects 0)) =
     [Fetch ListObjects, Sleep 1000, Fetch ListObjects, Sleep 2000,
      Fetch ListObjects, Sleep 4000, Fetch ListObjects] \<and>
   fetchCount (snd (snd (makeApiCall s0 mixedNet ListObjects 0))) \<le> 4 \<and>
   apiCallCount (fst (snd (makeApiCall s0 mixedNet ListObjects 0))) \<le> apiCallCount s0 + 4"
proof -
  have "snd (snd (makeApiCall s0 mixedNet ListObjects 0)) =
     [Fetch ListObjects, Sleep 1000, Fetch ListObjects, Sleep 2000,
      Fetch ListObjects, Sleep 4000, Fetch ListObjects]"
    by code_simp
  then show ?thesis
    using makeApiCall_at_most_four_fetches [of s0 mixedNet ListObjects] by simp
qed

subsection \<open>The reset time after a 429\<close>





subsection \<open>The flag after a retry\<close>

lemma staleFlag_later:
  assumes "staleFlag s" and "0 \<le> d"
  shows "staleFlag (s\<lparr>now := now s + d\<rparr>)"
  using assms
  by (cases "rateLimitResetTime s"; cases "toNumber (rateLimitResetTime s)")
     (auto simp: staleFlag_def currentlyLimited_def)

lemma delayOf_nonneg: "0 \<le> delayOf d"
  by (cases d) auto

lemma staleFlag_sleep: "staleFlag s \<Longrightarrow> staleFlag (sleep d s)"
  unfolding sleep_def by (rule staleFlag_later) (auto simp: delayOf_nonneg)

lemma staleFlag_count: "staleFlag s \<Longrightarrow> staleFlag (s\<lparr>apiCallCount := n\<rparr>)"
  by (simp add: staleFlag_def currentlyLimited_def)

lemma staleFlag_after_429:
  "staleFlag (sleep (jssub (toNumber (rateLimitResetTime (observe429 s r k))) (Num (now (observe429 s r k))))
              (observe429 s r k))"
  by (cases "retryWait r k")
     (auto simp: staleFlag_def currentlyLimited_def observe429_def Let_def sleep_def)

lemma observe429_flag: "isRateLimited (observe429 s r k)"
  by (simp add: observe429_def Let_def)

lemma waitIfLimited_stale: "staleFlag s \<Longrightarrow> waitIfLimited s = (s, [])"
  by (simp add: waitIfLimited_def staleFlag_def)

lemma tryBlock_staleFlag:
  assumes "staleFlag s" and "tryBlock s oc u k = (tr, s1, ev)"
  shows "isRateLimited s1 \<and> (tr = RetryAfter429 \<longrightarrow> staleFlag s1) \<and>
         (\<forall>e. tr = Thrown e \<and> k < maxRetries \<longrightarrow> staleFlag s1)"
proof (cases oc)
  case (Rejects dt e)
  have "staleFlag (s\<lparr>apiCallCount := apiCallCount s + 1, now := now s + int dt\<rparr>)"
    using staleFlag_later [OF staleFlag_count [OF assms(1), of "apiCallCount s + 1"], of "int dt"]
    by simp
  then show ?thesis using assms Rejects
    by (auto simp: tryBlock_def waitIfLimited_stale Let_def staleFlag_def)
next
  case (Resolves dt r)
  have st: "staleFlag (s\<lparr>apiCallCount := apiCallCount s + 1, now := now s + int dt\<rparr>)"
    using staleFlag_later [OF staleFlag_count [OF assms(1), of "apiCallCount s + 1"], of "int dt"]
    by simp
  show ?thesis
  proof (cases "status r = 429")
    case True
    show ?thesis using assms Resolves True staleFlag_after_429 observe429_flag
      by (auto simp: tryBlock_def waitIfLimited_stale Let_def sleep_def split: if_splits)
  next
    case False
    then show ?thesis using assms Resolves st
      by (auto simp: tryBlock_def waitIfLimited_stale Let_def staleFlag_def split: if_splits)
  qed
qed

text \<open>
  Once the flag is set and no wait is due, a request never clears it, whatever the
  network answers: line 67 is the only assignment of \<^verbatim>\<open>false\<close>, and it is guarded by
  the test that a wait is due.
\<close>

lemma staleFlag_is_kept:
  assumes "isRateLimited s" and "\<not> currentlyLimited s"
  shows "isRateLimited (fst (snd (makeApiCall s net u k)))"
proof -
  have "staleFlag s \<Longrightarrow> isRateLimited (fst (snd (makeApiCall s net u k)))"
  proof (induction s net u k rule: makeApiCall_cases_induct)
    case (attempt s net u k)
    obtain tr s1 ev where tb: "tryBlock s (net u k) u k = (tr, s1, ev)"
      by (cases "tryBlock s (net u k) u k") auto
    note inv = tryBlock_staleFlag [OF attempt(3) tb]
    show ?case
    proof (cases tr)
      case (Returned r)
      then show ?thesis using tb inv by (simp add: makeApiCall_Returned)
    next
      case RetryAfter429
      with tb have tb': "tryBlock s (net u k) u k = (RetryAfter429, s1, ev)" by simp
      have lt: "k < maxRetries" using tb' by (rule tryBlock_Retry_lt)
      have "staleFlag s1" using inv RetryAfter429 by simp
      then show ?thesis
        using attempt(1) [OF tb' lt]
        by (simp add: makeApiCall_Retry [of s net u k, OF tb'] world_after)
    next
      case (Thrown e)
      with tb have tb': "tryBlock s (net u k) u k = (Thrown e, s1, ev)" by simp
      show ?thesis
      proof (cases "k < maxRetries \<and> looksLikeNetworkError e")
        case True
        then have lt: "k < maxRetries" and nw: "looksLikeNetworkError e" by simp_all
        have "staleFlag s1" using inv Thrown lt by simp
        then have "staleFlag (sleep (backoff k) s1)" by (rule staleFlag_sleep)
        then show ?thesis
          using attempt(2) [OF tb' lt nw]
          by (simp add: makeApiCall_Thrown_retry [of s net u k, OF tb' lt nw] world_after)
      next
        case False
        then show ?thesis using inv by (simp add: makeApiCall_Thrown_stop [of s net u k, OF tb'])
      qed
    qed
  qed
  then show ?thesis using assms by (simp add: staleFlag_def)
qed

text \<open>
  Claim C3, evaluated on the code. A 429 with \<^verbatim>\<open>Retry-After: 2\<close> is followed by a 200.
  The wait before the second fetch is exactly 2000 ms. The retry starts at
  \<open>now = rateLimitResetTime\<close>, the test \<^verbatim>\<open>Date.now() < rateLimitResetTime\<close> of line 63
  is false, line 67 is not reached, and \<open>isRateLimited\<close> is still true when the
  response is returned.
\<close>

theorem isRateLimited_not_cleared_after_retry:
  "makeApiCall s0 retryAfter2Net ListObjects 0 =
     (Inr (respond 200 ''OK'' None emptyBody),
      \<lparr>apiCallCount = 2, rateLimitResetTime = Some (Num 7000), isRateLimited = True, now = 7000\<rparr>,
      [Fetch ListObjects, Sleep 2000, Fetch ListObjects])"
  by code_simp

subsection \<open>HTTP errors\<close>

lemma strIncludes_iff: "strIncludes hay needle \<longleftrightarrow> (\<exists>ps ss. hay = ps @ needle @ ss)"
proof (induction hay)
  case Nil
  then show ?case by auto
next
  case (Cons c cs)
  show ?case
  proof
    assume "strIncludes (c # cs) needle"
    then consider "take (length needle) (c # cs) = needle" | "strIncludes cs needle" by auto
    then show "\<exists>ps ss. c # cs = ps @ needle @ ss"
    proof cases
      case 1
      then have "c # cs = [] @ needle @ drop (length needle) (c # cs)"
        by (metis append_Nil append_take_drop_id)
      then show ?thesis by blast
    next
      case 2
      then obtain ps ss where "cs = ps @ needle @ ss" using Cons.IH by auto
      then have "c # cs = (c # ps) @ needle @ ss" by simp
      then show ?thesis by blast
    qed
  next
    assume "\<exists>ps ss. c # cs = ps @ needle @ ss"
    then obtain ps ss where eq: "c # cs = ps @ needle @ ss" by auto
    show "strIncludes (c # cs) needle"
    proof (cases ps)
      case Nil
      then have "take (length needle) (c # cs) = needle" using eq by simp
      then show ?thesis by simp
    next
      case (Cons p ps')
      then have "cs = ps' @ needle @ ss" using eq by simp
      then have "strIncludes cs needle" using Cons.IH by blast
      then show ?thesis by simp
    qed
  qed
qed

lemma strIncludes_skip_prefix:
  assumes "CHR ''f'' \<notin> set pre"
  shows "strIncludes (pre @ st) ''fetch'' = strIncludes st ''fetch''"
  using assms by (induction pre) auto

lemma digitChar_not_f: "d < 10 \<Longrightarrow> digitChar d \<noteq> CHR ''f''"
proof
  assume d: "d < 10" and eq: "digitChar d = CHR ''f''"
  have a: "(of_char (digitChar d) :: nat) = 48 + d" using d by simp
  have b: "(of_char (CHR ''f'') :: nat) = 102" by simp
  from eq have "(of_char (digitChar d) :: nat) = of_char (CHR ''f'')" by (rule arg_cong)
  then have "48 + d = (102 :: nat)" using a b by (simp only:)
  then show False using d by simp
qed

lemma stringOfNat_no_f: "CHR ''f'' \<notin> set (stringOfNat n)"
proof (induction n rule: stringOfNat.induct)
  case (1 n)
  show ?case
  proof (cases "n < 10")
    case True
    then show ?thesis using digitChar_not_f [of n] by (subst stringOfNat.simps) auto
  next
    case False
    have "n mod 10 < 10" by simp
    then have "digitChar (n mod 10) \<noteq> CHR ''f''" by (rule digitChar_not_f)
    then show ?thesis using False "1.IH" by (subst stringOfNat.simps) auto
  qed
qed

lemma httpError_looksLikeNetworkError:
  "looksLikeNetworkError (httpError r) = strIncludes (statusText r) ''fetch''"
proof -
  have "CHR ''f'' \<notin> set (''HTTP '' @ stringOfNat (status r) @ '': '')"
    using stringOfNat_no_f by simp
  then have "strIncludes ((''HTTP '' @ stringOfNat (status r) @ '': '') @ statusText r) ''fetch'' =
             strIncludes (statusText r) ''fetch''"
    by (rule strIncludes_skip_prefix)
  then show ?thesis by (simp add: looksLikeNetworkError_def httpError_def)
qed

lemma tryBlock_http_error:
  assumes "status r \<noteq> 429" and "\<not> ok r"
  shows "\<exists>s1 ev. tryBlock s (Resolves dt r) u k = (Thrown (httpError r), s1, ev)"
  using assms by (simp add: tryBlock_def Let_def split: prod.splits)

text \<open>
  A response that is neither a 429 nor a success, and whose \<^verbatim>\<open>statusText\<close> does not
  contain \<^verbatim>\<open>fetch\<close>, fails on that attempt with the HTTP error, after a single fetch.
\<close>

lemma http_error_fails_at_once:
  assumes "net u k = Resolves dt r" and "status r \<noteq> 429" and "\<not> ok r"
    and "\<not> strIncludes (statusText r) ''fetch''"
  shows "fst (makeApiCall s net u k) = Inl (httpError r) \<and>
         fetchCount (snd (snd (makeApiCall s net u k))) = 1"
proof -
  obtain s1 ev where tb: "tryBlock s (net u k) u k = (Thrown (httpError r), s1, ev)"
    using tryBlock_http_error [OF assms(2,3), of s dt u k] assms(1) by auto
  have no: "\<not> (k < maxRetries \<and> looksLikeNetworkError (httpError r))"
    using assms(4) by (simp add: httpError_looksLikeNetworkError)
  have "makeApiCall s net u k = (Inl (httpError r), s1, ev)"
    using tb no by (rule makeApiCall_Thrown_stop [of s net u k])
  then show ?thesis using tryBlock_fetchCount [OF tb] by simp
qed

text \<open>
  Claim C5, evaluated on the code. A 500 whose \<^verbatim>\<open>statusText\<close> contains \<^verbatim>\<open>fetch\<close> gives the
  error message \<^verbatim>\<open>HTTP 500: Prefetch Failed\<close>; the test of line 128 takes it for a
  network error, waits 1000 ms and fetches again.
\<close>

theorem http_error_retried:
  "makeApiCall s0 fetchInStatusTextNet ListObjects 0 =
     (Inr (respond 200 ''OK'' None emptyBody),
      \<lparr>apiCallCount = 2, rateLimitResetTime = None, isRateLimited = False, now = 6000\<rparr>,
      [Fetch ListObjects, Sleep 1000, Fetch ListObjects])"
  by code_simp

section \<open>Properties of loadArtworkDetails\<close>

lemma map_filter_id_map: "List.map_filter (\<lambda>a. a) (map g xs) = List.map_filter g xs"
  by (induction xs) (simp_all add: map_filter_simps split: option.splits)

lemma map_filter_append': "List.map_filter f (xs @ ys) = List.map_filter f xs @ List.map_filter f ys"
  by (simp add: List.map_filter_def)



lemma set_map_filter: "set (List.map_filter f xs) = {a. \<exists>x \<in> set xs. f x = Some a}"
  by (induction xs) (auto simp: map_filter_simps split: option.splits)

lemma batch_results:
  "map (\<lambda>(p, x). g p x) (zip [i ..< i + length (take m (drop i xs))] (take m (drop i xs))) =
   map (\<lambda>p. g p (xs ! p)) [i ..< min (i + m) (length xs)]"
  by (rule nth_equalityI) (auto simp: min_def split: if_splits)

lemma upt_split_batch:
  assumes "i < n"
  shows "[i ..< n] = [i ..< min (i + m) n] @ [i + m ..< n]"
proof (cases "i + m \<le> n")
  case True
  then have "[i ..< n] = [i ..< i + m] @ [i + m ..< n]"
    by (metis le_add1 upt_add_eq_append le_Suc_ex)
  then show ?thesis using True by (simp add: min_def)
next
  case False
  then show ?thesis by (simp add: min_def)
qed

lemma batch_filtered:
  "List.map_filter (\<lambda>a. a)
     (map (\<lambda>(p, x). fetchArtwork s (nets p) x)
        (zip [i ..< i + length (take batchSize (drop i ids))] (take batchSize (drop i ids)))) =
   List.map_filter (taskAt s nets ids) [i ..< min (i + batchSize) (length ids)]"
  unfolding taskAt_def by (simp only: batch_results map_filter_id_map)

lemma loadLoop_artworks:
  "fst (loadLoop s nets ids i acc log) = acc @ List.map_filter (taskAt s nets ids) [i ..< length ids]"
proof (induction s nets ids i acc log rule: loadLoop.induct)
  case (1 s nets ids i acc log)
  show ?case
  proof (cases "i < length ids")
    case True
    have split: "[i ..< length ids] = [i ..< min (i + batchSize) (length ids)] @ [i + batchSize ..< length ids]"
      using True by (rule upt_split_batch)
    note IH = "1.IH" [OF True refl refl refl refl refl, unfolded batch_filtered]
    show ?thesis
      apply (subst loadLoop.simps)
      apply (simp only: True if_True Let_def batch_filtered)
      apply (simp only: IH)
      apply (subst split)
      apply (simp add: map_filter_append')
      done
  next
    case False
    then show ?thesis by (subst loadLoop.simps) (simp add: map_filter_simps)
  qed
qed

lemma loadArtworkDetails_artworks:
  "fst (loadArtworkDetails s nets ids) = List.map_filter (taskAt s nets ids) [0 ..< length ids]"
  by (simp add: loadArtworkDetails_def loadLoop_artworks)

text \<open>The records do not depend on the rate-limit state the loader starts from.\<close>

lemma fetchArtwork_state_indep: "fetchArtwork s net i = fetchArtwork s' net i"
  using makeApiCall_result_indep [of s net "ObjectById i" 0 s'] by (simp add: fetchArtwork_def)

lemma loadArtworkDetails_state_indep:
  "fst (loadArtworkDetails s nets ids) = fst (loadArtworkDetails s' nets ids)"
proof -
  have "taskAt s nets ids = taskAt s' nets ids"
    by (rule ext) (simp add: taskAt_def fetchArtwork_state_indep [of s _ _ s'])
  then show ?thesis by (simp add: loadArtworkDetails_artworks)
qed



subsection \<open>Order of the result\<close>

text \<open>
  Claim C10. The records come out in the order of their IDs in the input, across
  batches and inside each batch: the result is the list of the callbacks' values,
  taken by increasing position in the input, with the \<^verbatim>\<open>null\<close>s removed.
  \<^verbatim>\<open>Promise.all\<close> keeps the order of \<^verbatim>\<open>batch\<close>, and \<^verbatim>\<open>filter\<close> and \<^verbatim>\<open>push\<close> keep it too.
\<close>

theorem loadArtworkDetails_input_order:
  "fst (loadArtworkDetails s nets ids) =
     List.map_filter (\<lambda>p. fetchArtwork s (nets p) (ids ! p)) [0 ..< length ids]"
proof -
  have "taskAt s nets ids = (\<lambda>p. fetchArtwork s (nets p) (ids ! p))"
    by (rule ext) (simp add: taskAt_def)
  then show ?thesis using loadArtworkDetails_artworks [of s nets ids] by simp
qed

text \<open>The first scenario of the specification: the detail request for ID 2 fails.\<close>

theorem loadArtworkDetails_input_order_witness:
  "fst (loadArtworkDetails s0 (\<lambda>p. scenarioNet) [3, 2, 1]) = [recordOf 3, recordOf 1] \<and>
   List.map_filter (\<lambda>p. fetchArtwork s0 scenarioNet ([3, 2, 1] ! p)) [0 ..< length [3, 2, 1 :: int]] =
     [recordOf 3, recordOf 1]"
proof -
  have "fst (loadArtworkDetails s0 (\<lambda>p. scenarioNet) [3, 2, 1]) = [recordOf 3, recordOf 1]"
    by code_simp
  then show ?thesis
    using loadArtworkDetails_input_order [of s0 "\<lambda>p. scenarioNet" "[3, 2, 1]"] by simp
qed

subsection \<open>Batches\<close>



subsection \<open>Discarded records\<close>

lemma normalize_None_iff:
  "normalize raw = None \<longleftrightarrow>
     \<not> ((\<exists>img. primaryImage raw = Some img \<and> img \<noteq> []) \<and> (\<exists>t. title raw = Some t \<and> t \<noteq> []))"
  by (cases "primaryImage raw"; cases "title raw") (auto simp: normalize_def)

lemma normalize_Some_fields:
  assumes "normalize raw = Some a"
  shows "recTitle a \<noteq> [] \<and> recImage a \<noteq> [] \<and> title raw = Some (recTitle a) \<and>
         recArtist a = orElse (artistDisplayName raw) ''Unknown Artist''"
  using assms
  by (cases "primaryImage raw"; cases "title raw"; cases "primaryImageSmall raw")
     (auto simp: normalize_def split: if_splits)

lemma fetchArtwork_Some:
  assumes "fetchArtwork s net i = Some a"
  shows "\<exists>response raw. fst (makeApiCall s net (ObjectById i) 0) = Inr response \<and>
           body response = Object raw \<and> normalize raw = Some a"
  using assms by (auto simp: fetchArtwork_def split: sum.splits body.splits)

lemma loadArtworkDetails_set:
  "set (fst (loadArtworkDetails s nets ids)) =
     {a. \<exists>p < length ids. fetchArtwork s (nets p) (ids ! p) = Some a}"
  by (auto simp: loadArtworkDetails_artworks set_map_filter taskAt_def)

text \<open>
  Claim C6. The record is \<^verbatim>\<open>null\<close> exactly when \<^verbatim>\<open>primaryImage\<close> and \<^verbatim>\<open>title\<close> are not
  both present and non-empty. When a record is made and \<^verbatim>\<open>artistDisplayName\<close> is
  absent or empty, its artist is \<^verbatim>\<open>Unknown Artist\<close>. A detail object that gives
  \<^verbatim>\<open>null\<close> makes its callback return \<^verbatim>\<open>null\<close>, and every record the loader returns has
  a non-empty title and a non-empty image, whatever list of IDs it was given (the
  searched IDs, the random sample or the curated list).
\<close>

theorem normalize_discards_incomplete:
  "(normalize raw = None \<longleftrightarrow>
      \<not> ((\<exists>img. primaryImage raw = Some img \<and> img \<noteq> []) \<and> (\<exists>t. title raw = Some t \<and> t \<noteq> []))) \<and>
   (\<forall>a. normalize raw = Some a \<and> (artistDisplayName raw = None \<or> artistDisplayName raw = Some []) \<longrightarrow>
      recArtist a = ''Unknown Artist'') \<and>
   (\<forall>response. normalize raw = None \<and> fst (makeApiCall s net (ObjectById i) 0) = Inr response \<and>
      body response = Object raw \<longrightarrow> fetchArtwork s net i = None) \<and>
   (\<forall>a \<in> set (fst (loadArtworkDetails s nets ids)). recTitle a \<noteq> [] \<and> recImage a \<noteq> [])"
proof -
  have a: "normalize raw = None \<longleftrightarrow>
      \<not> ((\<exists>img. primaryImage raw = Some img \<and> img \<noteq> []) \<and> (\<exists>t. title raw = Some t \<and> t \<noteq> []))"
    by (rule normalize_None_iff)
  have b: "\<forall>a. normalize raw = Some a \<and> (artistDisplayName raw = None \<or> artistDisplayName raw = Some []) \<longrightarrow>
      recArtist a = ''Unknown Artist''"
    using normalize_Some_fields [of raw] by auto
  have c: "\<forall>response. normalize raw = None \<and> fst (makeApiCall s net (ObjectById i) 0) = Inr response \<and>
      body response = Object raw \<longrightarrow> fetchArtwork s net i = None"
    by (simp add: fetchArtwork_def)
  have d: "\<forall>a \<in> set (fst (loadArtworkDetails s nets ids)). recTitle a \<noteq> [] \<and> recImage a \<noteq> []"
  proof
    fix a assume "a \<in> set (fst (loadArtworkDetails s nets ids))"
    then obtain p where "fetchArtwork s (nets p) (ids ! p) = Some a"
      by (auto simp: loadArtworkDetails_set)
    then obtain raw' where "normalize raw' = Some a"
      using fetchArtwork_Some by blast
    then show "recTitle a \<noteq> [] \<and> recImage a \<noteq> []"
      using normalize_Some_fields by blast
  qed
  show ?thesis using a b c d by blast
qed

text \<open>Witness: an object with an empty title, and one with an empty artist name.\<close>

theorem normalize_discards_incomplete_witness:
  "normalize untitled = None \<and> title untitled = Some [] \<and>
   normalize anonymous \<noteq> None \<and> artistDisplayName anonymous = Some [] \<and>
   map recArtist (List.map_filter normalize [anonymous]) = [''Unknown Artist''] \<and>
   fst (loadArtworkDetails s0 (\<lambda>p. scenarioNet) [1, 2, 3]) = [recordOf 1, recordOf 3]"
proof -
  have e1: "title untitled = Some []" by (simp add: untitled_def)
  have e2: "artistDisplayName anonymous = Some []" by (simp add: anonymous_def)
  have e3: "normalize anonymous \<noteq> None" by code_simp
  have e4: "fst (loadArtworkDetails s0 (\<lambda>p. scenarioNet) [1, 2, 3]) = [recordOf 1, recordOf 3]"
    by code_simp
  have e5: "map recArtist (List.map_filter normalize [anonymous]) = [''Unknown Artist'']"
    using normalize_discards_incomplete [of anonymous s0 scenarioNet 1 "\<lambda>p. scenarioNet" "[1, 2, 3]"] e2 e3
    by (auto simp: map_filter_simps)
  show ?thesis
    using normalize_discards_incomplete [of untitled s0 scenarioNet 1 "\<lambda>p. scenarioNet" "[1, 2, 3]"]
      e1 e2 e3 e4 e5
    by simp
qed

subsection \<open>Failed requests inside a batch\<close>



section \<open>Properties of the two pages\<close>

lemma set_logged: "set (snd (logged evs pg)) = set evs \<union> set (snd pg)"
  by (cases pg) (simp add: logged_def)

lemma fst_logged: "fst (logged evs pg) = fst pg"
  by (cases pg) (simp add: logged_def)

lemma searchCatch_log: "snd (searchCatch error) = []"
  by (simp add: searchCatch_def)

lemma loadCurated_log: "CuratedFallback \<in> set (snd (loadCuratedArtworks s nets))"
  by (simp add: loadCuratedArtworks_def split: prod.splits)

lemma browseCatch_log:
  "CuratedFallback \<in> set (snd (browseCatch error s nets)) \<longleftrightarrow>
     \<not> strIncludes (errMessage error) ''Rate limited''"
  by (simp add: browseCatch_def loadCurated_log)

lemma noArtworks_not_rate_limited: "\<not> strIncludes (errMessage noArtworksError) ''Rate limited''"
  by code_simp

lemma search_never_falls_back:
  "CuratedFallback \<notin> set (snd (searchArtworks s net nets q))"
  by (auto simp: searchArtworks_def set_logged searchCatch_log
           split: prod.splits sum.splits body.splits option.splits)

text \<open>
  Claim C9. A search whose listing call succeeds with an empty \<^verbatim>\<open>objectIDs\<close> array ends
  in \<^verbatim>\<open>showNoResults(query)\<close>, not in an error message; the curated list is not
  loaded and no detail request is made.
\<close>

theorem search_empty_listing_NoResults:
  assumes "fst (makeApiCall s net (Search q) 0) = Inr response"
    and "body response = Listing (Some [])"
  shows "fst (searchArtworks s net nets q) = NoResults q \<and>
         CuratedFallback \<notin> set (snd (searchArtworks s net nets q)) \<and>
         snd (searchArtworks s net nets q) = [Api (snd (snd (makeApiCall s net (Search q) 0)))]"
proof -
  obtain s1 ev where m: "makeApiCall s net (Search q) 0 = (Inr response, s1, ev)"
    using assms(1) by (cases "makeApiCall s net (Search q) 0") auto
  show ?thesis using assms(2) by (simp add: searchArtworks_def m)
qed

text \<open>Witness: the third scenario of the specification.\<close>

theorem search_empty_listing_NoResults_witness:
  "fst (makeApiCall s0 scenarioNet (Search ''nonexistent-term-xyz'') 0) =
     Inr (respond 200 ''OK'' None (Listing (Some []))) \<and>
   body (respond 200 ''OK'' None (Listing (Some []))) = Listing (Some []) \<and>
   searchArtworks s0 scenarioNet (\<lambda>p. scenarioNet) ''nonexistent-term-xyz'' =
     (NoResults ''nonexistent-term-xyz'', [Api [Fetch (Search ''nonexistent-term-xyz'')]])"
proof -
  have a: "fst (makeApiCall s0 scenarioNet (Search ''nonexistent-term-xyz'') 0) =
     Inr (respond 200 ''OK'' None (Listing (Some [])))"
    by code_simp
  have b: "body (respond 200 ''OK'' None (Listing (Some []))) = Listing (Some [])"
    by (simp add: respond_def)
  have c: "snd (snd (makeApiCall s0 scenarioNet (Search ''nonexistent-term-xyz'') 0)) =
     [Fetch (Search ''nonexistent-term-xyz'')]"
    by code_simp
  show ?thesis
    using search_empty_listing_NoResults [OF a b, of "\<lambda>p. scenarioNet"] a b c
    by (simp add: prod_eq_iff)
qed

text \<open>
  Claim C4 as the specification states it fails: the listing call succeeds with zero
  object IDs, line 155 throws \<^verbatim>\<open>No artworks found\<close> into the handler of line 158, and
  the curated list is loaded.
\<close>

theorem fallback_when_listing_empty_counterexample:
  "fst (makeApiCall s0 emptyListingNet ListObjects 0) =
     Inr (respond 200 ''OK'' None (Listing (Some []))) \<and>
   CuratedFallback \<in> set (snd (loadRandomArtworks s0 emptyListingNet (\<lambda>p. emptyListingNet) (\<lambda>xs. xs)))"
  by code_simp

text \<open>
  Claim C4, as amended. On the random-browse path the curated list is loaded exactly
  when the listing step ends in an error whose message does not contain
  \<^verbatim>\<open>Rate limited\<close> (an HTTP error, a network error after the retries, an unreadable
  body), or when the listing call succeeds without any object ID. It is never loaded
  on the search path.
\<close>

theorem fallback_use:
  "(CuratedFallback \<in> set (snd (loadRandomArtworks s net nets shuffle)) \<longleftrightarrow>
      (case fst (makeApiCall s net ListObjects 0) of
         Inl error \<Rightarrow> \<not> strIncludes (errMessage error) ''Rate limited''
       | Inr response \<Rightarrow>
           (case body response of
              Unreadable error \<Rightarrow> \<not> strIncludes (errMessage error) ''Rate limited''
            | Listing ids \<Rightarrow> ids = None \<or> ids = Some []
            | Object raw \<Rightarrow> True))) \<and>
   CuratedFallback \<notin> set (snd (searchArtworks s net nets q))"
proof -
  obtain r s1 ev where m: "makeApiCall s net ListObjects 0 = (r, s1, ev)"
    by (cases "makeApiCall s net ListObjects 0") auto
  have "CuratedFallback \<in> set (snd (loadRandomArtworks s net nets shuffle)) \<longleftrightarrow>
      (case r of
         Inl error \<Rightarrow> \<not> strIncludes (errMessage error) ''Rate limited''
       | Inr response \<Rightarrow>
           (case body response of
              Unreadable error \<Rightarrow> \<not> strIncludes (errMessage error) ''Rate limited''
            | Listing ids \<Rightarrow> ids = None \<or> ids = Some []
            | Object raw \<Rightarrow> True))"
    by (auto simp: loadRandomArtworks_def m set_logged browseCatch_log noArtworks_not_rate_limited
             split: sum.splits body.splits option.splits prod.splits)
  then show ?thesis using m search_never_falls_back by simp
qed

text \<open>
  Witness: a listing that answers 500 (fallback), one that answers 429 until the
  retries are used up (no fallback), one that succeeds with IDs (no fallback), and a
  failing search (no fallback).
\<close>

theorem fallback_use_witness:
  "CuratedFallback \<in> set (snd (loadRandomArtworks s0 serverErrorNet (\<lambda>p. serverErrorNet) (\<lambda>xs. xs))) \<and>
   fst (makeApiCall s0 serverErrorNet ListObjects 0) =
     Inl (httpError (respond 500 ''Internal Server Error'' None emptyBody)) \<and>
   CuratedFallback \<notin> set (snd (loadRandomArtworks s0 throttledNet (\<lambda>p. throttledNet) (\<lambda>xs. xs))) \<and>
   fst (makeApiCall s0 throttledNet ListObjects 0) = Inl rateLimitError \<and>
   CuratedFallback \<notin> set (snd (loadRandomArtworks s0 scenarioNet (\<lambda>p. scenarioNet) (\<lambda>xs. xs))) \<and>
   CuratedFallback \<notin> set (snd (searchArtworks s0 serverErrorNet (\<lambda>p. serverErrorNet) ''monet''))"
proof -
  have a: "fst (makeApiCall s0 serverErrorNet ListObjects 0) =
     Inl (httpError (respond 500 ''Internal Server Error'' None emptyBody))"
    by code_simp
  have a': "\<not> strIncludes (errMessage (httpError (respond 500 ''Internal Server Error'' None emptyBody)))
     ''Rate limited''"
    by code_simp
  have b: "fst (makeApiCall s0 throttledNet ListObjects 0) = Inl rateLimitError"
    by code_simp
  have b': "strIncludes (errMessage rateLimitError) ''Rate limited''"
    by code_simp
  have c: "fst (makeApiCall s0 scenarioNet ListObjects 0) =
     Inr (respond 200 ''OK'' None (Listing (Some [1, 2, 3])))"
    by code_simp
  have c': "body (respond 200 ''OK'' None (Listing (Some [1, 2, 3]))) = Listing (Some [1, 2, 3])"
    by (simp add: respond_def)
  show ?thesis
    using fallback_use [of s0 serverErrorNet "\<lambda>p. serverErrorNet" "\<lambda>xs. xs" "''monet''"]
      fallback_use [of s0 throttledNet "\<lambda>p. throttledNet" "\<lambda>xs. xs" "''monet''"]
      fallback_use [of s0 scenarioNet "\<lambda>p. scenarioNet" "\<lambda>xs. xs" "''monet''"]
      a a' b b' c c'
    by simp
qed

end
